theory Spec2Isabelle
  imports Complex_Main
begin

section \<open>Thanos Ruler (cmd/thanos/rule.go): shared data\<close>

text \<open>
  Errors are values. Every \<^verbatim>\<open>return ..., err\<close> of the modelled functions of
  \<^verbatim>\<open>rule.go\<close> is one constructor; the argument is the text the Go code formats into the
  message. \<open>ErrPanic\<close> stands for a Go run-time panic (index out of range).
\<close>

datatype error =
    ErrUrlParse string
  | ErrNoQueryPeerReachable
  | ErrParseURL string
  | ErrAlertmanagerResolve string
  | ErrParseLabels string
  | ErrParseAlertQueryURL string
  | ErrDuplicatedQuery string
  | ErrNoQueryParameter
  | ErrEmptyStaticQuerier
  | ErrReloadRules string
  | ErrPanic string

fun Error :: "error \<Rightarrow> string" where
  "Error (ErrUrlParse a) = ''url parse '' @ a"
| "Error ErrNoQueryPeerReachable = ''no query peer reachable''"
| "Error (ErrParseURL n) = ''parse URL '' @ n"
| "Error (ErrAlertmanagerResolve e) = ''alertmanager resolve: '' @ e"
| "Error (ErrParseLabels e) = ''parse labels: '' @ e"
| "Error (ErrParseAlertQueryURL e) = ''parse alert query url: '' @ e"
| "Error (ErrDuplicatedQuery q) = ''Address '' @ q @ '' is duplicated for --query flag.''"
| "Error ErrNoQueryParameter = ''No --query parameter was given.''"
| "Error ErrEmptyStaticQuerier = ''static querier address cannot be empty''"
| "Error (ErrReloadRules e) = e"
| "Error (ErrPanic e) = ''panic: '' @ e"

text \<open>
  \<^verbatim>\<open>url.URL\<close> with the four fields \<^verbatim>\<open>rule.go\<close> reads and writes. \<^verbatim>\<open>url.Parse\<close> is the Go
  standard library; the functions below take it as the parameter \<open>parse\<close>
  (\<open>None\<close> is a parse error).
\<close>

record URL =
  Scheme :: string
  Host :: string
  Path :: string
  User :: "string option"

section \<open>The remote query function (\<^verbatim>\<open>queryFunc\<close>)\<close>

datatype PartialResponseStrategy = WARN | ABORT

text \<open>
  Modelled from the spec: \<^verbatim>\<open>storepb.PartialResponseStrategy\<close> and its method \<^verbatim>\<open>String\<close> are
  generated code that is not among the sources. The names are those of the enum values
  \<^verbatim>\<open>PartialResponseStrategy_WARN\<close> and \<^verbatim>\<open>PartialResponseStrategy_ABORT\<close> that \<^verbatim>\<open>rule.go\<close>
  uses; the specification gives \<^verbatim>\<open>strategy="warn"\<close> as the lower-case label.
\<close>

fun String_strategy :: "PartialResponseStrategy \<Rightarrow> string" where
  "String_strategy WARN = ''WARN''"
| "String_strategy ABORT = ''ABORT''"

text \<open>\<^verbatim>\<open>strings.ToLower\<close> on ASCII letters; other characters are kept.\<close>

definition ToLower :: "string \<Rightarrow> string" where
  "ToLower s =
     map (\<lambda>c. case map_of (zip ''ABCDEFGHIJKLMNOPQRSTUVWXYZ'' ''abcdefghijklmnopqrstuvwxyz'') c of
                 None \<Rightarrow> c | Some d \<Rightarrow> d) s"

text \<open>
  What \<^verbatim>\<open>promclient.PromqlQueryInstant\<close> hands back: an error (transport error or a
  non-2xx answer), or the decoded vector with the warnings of the response. The client is a
  parameter \<open>client\<close> of the model: the answer the peer behind a URL gives during one call.
\<close>

datatype 'v query_result = QueryErr string | QueryOK 'v "string list"

text \<open>
  The state \<^verbatim>\<open>queryFunc\<close> touches: the counter \<^verbatim>\<open>thanos_rule_duplicated_query_address\<close>,
  the counter vector \<^verbatim>\<open>thanos_rule_evaluation_with_warnings_total\<close> (one child per value of
  the label \<^verbatim>\<open>strategy\<close>), and the trace of HTTP requests, oldest first: the URL of every
  call of \<^verbatim>\<open>PromqlQueryInstant\<close>.
\<close>

record eval_state =
  duplicatedQuery :: nat
  ruleEvalWarnings :: "string \<Rightarrow> nat"
  requests :: "URL list"

definition WithLabelValues_Inc :: "(string \<Rightarrow> nat) \<Rightarrow> string \<Rightarrow> (string \<Rightarrow> nat)" where
  "WithLabelValues_Inc vec l = vec(l := Suc (vec l))"

text \<open>
  \<^verbatim>\<open>removeDuplicateQueryAddrs\<close>: the first loop fills the map \<^verbatim>\<open>set\<close> and increments the
  counter for every address already in it; the second loop lists the keys. Go iterates a map
  in no fixed order; the model lists the keys in the order of their first insertion.
\<close>

fun removeDuplicateQueryAddrs_loop ::
  "string list \<Rightarrow> string list \<Rightarrow> nat \<Rightarrow> string list \<times> nat" where
  "removeDuplicateQueryAddrs_loop [] keys cnt = (keys, cnt)"
| "removeDuplicateQueryAddrs_loop (addr # addrs) keys cnt =
     (if addr \<in> set keys
      then removeDuplicateQueryAddrs_loop addrs keys (Suc cnt)
      else removeDuplicateQueryAddrs_loop addrs (keys @ [addr]) cnt)"

definition removeDuplicateQueryAddrs :: "string list \<Rightarrow> eval_state \<Rightarrow> string list \<times> eval_state" where
  "removeDuplicateQueryAddrs addrs st =
     (case removeDuplicateQueryAddrs_loop addrs [] (duplicatedQuery st) of
        (deduplicated, cnt) \<Rightarrow> (deduplicated, st\<lparr>duplicatedQuery := cnt\<rparr>))"

text \<open>
  The loop \<^verbatim>\<open>for _, i := range rand.Perm(len(addrs))\<close> of the returned closure, over the
  remaining indices. An index outside \<open>addrs\<close> panics in Go.
\<close>

fun queryFunc_loop ::
  "(string \<Rightarrow> URL option) \<Rightarrow> (URL \<Rightarrow> 'v query_result) \<Rightarrow> PartialResponseStrategy \<Rightarrow>
   string list \<Rightarrow> nat list \<Rightarrow> eval_state \<Rightarrow> (error + 'v) \<times> eval_state" where
  "queryFunc_loop parse client strategy addrs [] st = (Inl ErrNoQueryPeerReachable, st)"
| "queryFunc_loop parse client strategy addrs (i # rest) st =
     (if length addrs \<le> i then (Inl (ErrPanic ''index out of range''), st)
      else case parse (''http://'' @ addrs ! i) of
        None \<Rightarrow> (Inl (ErrUrlParse (addrs ! i)), st)
      | Some u \<Rightarrow>
          (let st1 = st\<lparr>requests := requests st @ [u]\<rparr> in
           case client u of
             QueryErr e \<Rightarrow> queryFunc_loop parse client strategy addrs rest st1
           | QueryOK v warns \<Rightarrow>
               (Inr v,
                if 0 < length warns
                then st1\<lparr>ruleEvalWarnings :=
                       WithLabelValues_Inc (ruleEvalWarnings st1) (ToLower (String_strategy strategy))\<rparr>
                else st1)))"

text \<open>
  The closure \<^verbatim>\<open>queryFunc\<close> returns (\<open>Eval\<close> in the specification). \<open>addrs\<close> is the
  snapshot \<^verbatim>\<open>dnsProvider.Addresses()\<close>, \<open>perm\<close> the value of \<^verbatim>\<open>rand.Perm(len(addrs))\<close>.
  The result of \<^verbatim>\<open>removeDuplicateQueryAddrs\<close> is dropped by the source; only its effect on
  the counter remains.
\<close>

definition isPerm :: "nat \<Rightarrow> nat list \<Rightarrow> bool" where
  "isPerm n p = (distinct p \<and> set p = {0..<n})"

definition queryFunc ::
  "(string \<Rightarrow> URL option) \<Rightarrow> (URL \<Rightarrow> 'v query_result) \<Rightarrow> PartialResponseStrategy \<Rightarrow>
   string list \<Rightarrow> nat list \<Rightarrow> eval_state \<Rightarrow> (error + 'v) \<times> eval_state" where
  "queryFunc parse client strategy addrs perm st =
     (case removeDuplicateQueryAddrs addrs st of
        (deduplicated, st0) \<Rightarrow> queryFunc_loop parse client strategy addrs perm st0)"

section \<open>The Alertmanager set (\<^verbatim>\<open>alertmanagerSet\<close>)\<close>

text \<open>
  \<^verbatim>\<open>strings.SplitN(s, sep, 2)\<close> for a separator of one character: the text before the first
  separator and the text after it, or \<open>s\<close> alone when the separator does not occur.
\<close>

definition SplitN2 :: "string \<Rightarrow> char \<Rightarrow> string list" where
  "SplitN2 s sep =
     (if sep \<in> set s
      then [takeWhile (\<lambda>c. c \<noteq> sep) s, tl (dropWhile (\<lambda>c. c \<noteq> sep) s)]
      else [s])"

text \<open>\<^verbatim>\<open>strconv.Itoa\<close> on a non-negative number.\<close>

fun Itoa :: "nat \<Rightarrow> string" where
  "Itoa n = (if n < 10 then [''0123456789'' ! n] else Itoa (n div 10) @ [''0123456789'' ! (n mod 10)])"

declare Itoa.simps [simp del]

definition defaultAlertmanagerPort :: nat where
  "defaultAlertmanagerPort = 9093"

text \<open>
  Modelled from the spec: the constant \<^verbatim>\<open>dns.A\<close> of type \<^verbatim>\<open>dns.QType\<close> (a string) is
  declared in \<^verbatim>\<open>pkg/discovery/dns\<close>, which is not among the sources. The specification and the
  help text of \<^verbatim>\<open>--alertmanagers.url\<close> give the prefix \<^verbatim>\<open>dns+\<close> for A lookups.
\<close>

definition dns_A :: string where
  "dns_A = ''dns''"

record alertmanagerSet =
  addrs :: "string list"
  current :: "URL list"

definition get :: "alertmanagerSet \<Rightarrow> URL list" where
  "get s = current s"

text \<open>
  The body of the loop of \<^verbatim>\<open>update\<close> for one configured address: the URLs it appends to
  \<^verbatim>\<open>result\<close>, or the error \<^verbatim>\<open>update\<close> returns with. \<open>SplitHostPort\<close> is
  \<^verbatim>\<open>net.SplitHostPort\<close> (\<open>None\<close> is an error) and \<open>resolve\<close> is
  \<^verbatim>\<open>s.resolver.Resolve\<close> applied to host and query type; both are parameters.
\<close>

definition update_addr ::
  "(string \<Rightarrow> URL option) \<Rightarrow> (string \<Rightarrow> (string \<times> string) option) \<Rightarrow>
   (string \<Rightarrow> string \<Rightarrow> string + string list) \<Rightarrow> string \<Rightarrow> error + URL list" where
  "update_addr parse SplitHostPort resolve addr =
     (let nameQtype = SplitN2 addr (CHR ''+'');
          name = (if length nameQtype = 2 then nameQtype ! 1 else addr);
          qtype = (if length nameQtype = 2 then nameQtype ! 0 else [])
      in case parse name of
           None \<Rightarrow> Inl (ErrParseURL name)
         | Some u \<Rightarrow>
             (let resolvedDomain =
                (if qtype \<noteq> [] then
                   (let host = (if qtype = dns_A
                                then (case SplitHostPort (Host u) of
                                        None \<Rightarrow> Host u @ '':'' @ Itoa defaultAlertmanagerPort
                                      | Some hp \<Rightarrow> Host u)
                                else Host u)
                    in resolve host qtype)
                 else Inr [Host u])
              in case resolvedDomain of
                   Inl e \<Rightarrow> Inl (ErrAlertmanagerResolve e)
                 | Inr rs \<Rightarrow>
                     Inr (map (\<lambda>resolved. \<lparr>Scheme = Scheme u, Host = resolved, Path = Path u, User = User u\<rparr>) rs)))"

fun update_loop ::
  "(string \<Rightarrow> URL option) \<Rightarrow> (string \<Rightarrow> (string \<times> string) option) \<Rightarrow>
   (string \<Rightarrow> string \<Rightarrow> string + string list) \<Rightarrow> string list \<Rightarrow> URL list \<Rightarrow> error + URL list" where
  "update_loop parse SplitHostPort resolve [] result = Inr result"
| "update_loop parse SplitHostPort resolve (addr # rest) result =
     (case update_addr parse SplitHostPort resolve addr of
        Inl e \<Rightarrow> Inl e
      | Inr us \<Rightarrow> update_loop parse SplitHostPort resolve rest (result @ us))"

text \<open>
  \<^verbatim>\<open>update\<close>: the error it returns (\<open>None\<close> is \<^verbatim>\<open>nil\<close>) and the set afterwards. The mutex
  is not modelled; \<open>current\<close> is assigned at one place only.
\<close>

definition update ::
  "(string \<Rightarrow> URL option) \<Rightarrow> (string \<Rightarrow> (string \<times> string) option) \<Rightarrow>
   (string \<Rightarrow> string \<Rightarrow> string + string list) \<Rightarrow> alertmanagerSet \<Rightarrow> error option \<times> alertmanagerSet" where
  "update parse SplitHostPort resolve s =
     (case update_loop parse SplitHostPort resolve (addrs s) [] of
        Inl e \<Rightarrow> (Some e, s)
      | Inr result \<Rightarrow> (None, s\<lparr>current := result\<rparr>))"

section \<open>The notify callback\<close>

text \<open>
  A \<^verbatim>\<open>time.Time\<close> is an instant counted from the zero time; \<^verbatim>\<open>IsZero\<close> holds of the zero
  value only.
\<close>

type_synonym Time = int

definition IsZero :: "Time \<Rightarrow> bool" where
  "IsZero t = (t = 0)"

datatype AlertState = StateInactive | StatePending | StateFiring

record rules_Alert =
  State :: AlertState
  Labels :: "(string \<times> string) list"
  Annotations :: "(string \<times> string) list"
  ActiveAt :: Time
  FiredAt :: Time
  ResolvedAt :: Time

record alert_Alert =
  StartsAt :: Time
  EndsAt :: Time
  alert_Labels :: "(string \<times> string) list"
  alert_Annotations :: "(string \<times> string) list"
  GeneratorURL :: string

text \<open>
  The loop of \<^verbatim>\<open>notify\<close> with its accumulator \<^verbatim>\<open>res\<close>. A field the composite literal does
  not name has its zero value, so \<open>EndsAt\<close> starts as the zero time.
\<close>

fun notify_loop :: "string \<Rightarrow> rules_Alert list \<Rightarrow> alert_Alert list \<Rightarrow> alert_Alert list" where
  "notify_loop generatorURL [] res = res"
| "notify_loop generatorURL (alrt # alerts) res =
     (if State alrt = StatePending then notify_loop generatorURL alerts res
      else
        (let a = \<lparr>StartsAt = FiredAt alrt, EndsAt = 0, alert_Labels = Labels alrt,
                  alert_Annotations = Annotations alrt, GeneratorURL = generatorURL\<rparr>;
             a' = (if \<not> IsZero (ResolvedAt alrt) then a\<lparr>EndsAt := ResolvedAt alrt\<rparr> else a)
         in notify_loop generatorURL alerts (res @ [a'])))"

text \<open>
  \<^verbatim>\<open>notify\<close>. The queue \<^verbatim>\<open>alertQ\<close> is seen through the calls of \<^verbatim>\<open>Push\<close>: \<open>pushed\<close> lists
  the argument of every call, oldest first. \<open>queryURL\<close> is \<^verbatim>\<open>alertQueryURL.String()\<close> and
  \<open>TableLinkForExpression\<close> the function of \<^verbatim>\<open>strutil\<close>.
\<close>

definition notify ::
  "string \<Rightarrow> (string \<Rightarrow> string) \<Rightarrow> string \<Rightarrow> rules_Alert list \<Rightarrow>
   alert_Alert list list \<Rightarrow> alert_Alert list list" where
  "notify queryURL TableLinkForExpression expr alerts pushed =
     pushed @ [notify_loop (queryURL @ TableLinkForExpression expr) alerts []]"

section \<open>The file SD update loop\<close>

text \<open>
  Modelled from the spec: the cache \<^verbatim>\<open>cache.Cache\<close> (\<^verbatim>\<open>pkg/discovery/cache\<close>) is not among
  the sources. The specification says that it replaces its view atomically on each message;
  \<open>Update_calls\<close> counts the calls of \<^verbatim>\<open>Update\<close>. Target groups are kept abstract.
\<close>

record 'g Cache =
  view :: "'g list"
  Update_calls :: nat

definition cache_Update :: "'g Cache \<Rightarrow> 'g list \<Rightarrow> 'g Cache" where
  "cache_Update c tgs = c\<lparr>view := tgs, Update_calls := Suc (Update_calls c)\<rparr>"

text \<open>
  What the \<^verbatim>\<open>select\<close> of the loop can receive: a message on \<^verbatim>\<open>fileSDUpdates\<close> (a slice of
  groups, \<open>None\<close> for the \<^verbatim>\<open>nil\<close> slice) or the end of \<^verbatim>\<open>ctxUpdate\<close>.
\<close>

datatype 'g fileSD_event = Update_msg "'g list option" | Ctx_Done

text \<open>
  The goroutine over the events it receives, in order. It returns at \<open>Ctx_Done\<close>; when
  the events run out it waits in \<^verbatim>\<open>select\<close>, and the cache is as the last event left it.
\<close>

fun fileSD_loop :: "'g fileSD_event list \<Rightarrow> 'g Cache \<Rightarrow> 'g Cache" where
  "fileSD_loop [] c = c"
| "fileSD_loop (Ctx_Done # es) c = c"
| "fileSD_loop (Update_msg None # es) c = fileSD_loop es c"
| "fileSD_loop (Update_msg (Some upd) # es) c = fileSD_loop es (cache_Update c upd)"

section \<open>The reload loop\<close>

record 'r Group =
  File :: string
  Name :: string
  Rules :: "'r list"

text \<open>
  The state of the reload loop: the rule groups of the manager of each strategy
  (\<^verbatim>\<open>mgr.RuleGroups()\<close>), the gauges \<^verbatim>\<open>thanos_rule_config_last_reload_successful\<close> and
  \<^verbatim>\<open>thanos_rule_config_last_reload_success_timestamp_seconds\<close>, and the gauge vector
  \<^verbatim>\<open>thanos_rule_loaded_rules\<close> by strategy, file and group. Gauges hold reals; the rounding
  of \<^verbatim>\<open>float64\<close> is left out.
\<close>

record 'r rule_state =
  ruleMgrs :: "PartialResponseStrategy \<Rightarrow> 'r Group list"
  configSuccess :: real
  configSuccessTime :: real
  rulesLoaded :: "(string \<times> string \<times> string) \<rightharpoonup> real"

text \<open>
  Modelled from the spec: \<^verbatim>\<open>thanosrule.Managers.Update\<close> (\<^verbatim>\<open>pkg/rule\<close>) is not among the
  sources. By the specification each file is parsed into groups, the strategy a group declares
  selects its manager, each manager's registry is replaced by the new set, and on any parse
  error the current state is left untouched. \<open>parseFile\<close> is the rule-file parser.
\<close>

fun parseFiles ::
  "(string \<Rightarrow> string + (PartialResponseStrategy \<times> 'r Group) list) \<Rightarrow> string list \<Rightarrow>
   string + (PartialResponseStrategy \<times> 'r Group) list" where
  "parseFiles parseFile [] = Inr []"
| "parseFiles parseFile (fn # fns) =
     (case parseFile fn of
        Inl e \<Rightarrow> Inl e
      | Inr gs \<Rightarrow> (case parseFiles parseFile fns of Inl e \<Rightarrow> Inl e | Inr gs' \<Rightarrow> Inr (gs @ gs')))"

definition Managers_Update ::
  "(string \<Rightarrow> string + (PartialResponseStrategy \<times> 'r Group) list) \<Rightarrow>
   (PartialResponseStrategy \<Rightarrow> 'r Group list) \<Rightarrow> string list \<Rightarrow>
   error option \<times> (PartialResponseStrategy \<Rightarrow> 'r Group list)" where
  "Managers_Update parseFile mgrs files =
     (case parseFiles parseFile files of
        Inl e \<Rightarrow> (Some (ErrReloadRules e), mgrs)
      | Inr gs \<Rightarrow> (None, \<lambda>s. map snd (filter (\<lambda>sg. fst sg = s) gs)))"

text \<open>
  The loop over \<^verbatim>\<open>ruleFiles\<close>: \<open>Glob\<close> is \<^verbatim>\<open>filepath.Glob\<close> (\<open>None\<close> is a bad pattern, which
  is logged and skipped).
\<close>

fun globFiles :: "(string \<Rightarrow> string list option) \<Rightarrow> string list \<Rightarrow> string list \<Rightarrow> string list" where
  "globFiles Glob [] files = files"
| "globFiles Glob (pat # pats) files =
     (case Glob pat of
        None \<Rightarrow> globFiles Glob pats files
      | Some fs \<Rightarrow> globFiles Glob pats (files @ fs))"

text \<open>The two nested loops that set \<^verbatim>\<open>rulesLoaded\<close> after a successful reload.\<close>

fun setRulesLoaded ::
  "string \<Rightarrow> 'r Group list \<Rightarrow> ((string \<times> string \<times> string) \<rightharpoonup> real) \<Rightarrow>
   ((string \<times> string \<times> string) \<rightharpoonup> real)" where
  "setRulesLoaded s [] vec = vec"
| "setRulesLoaded s (grp # grps) vec =
     setRulesLoaded s grps (vec((s, File grp, Name grp) \<mapsto> real (length (Rules grp))))"

text \<open>
  One turn of the reload loop after a reload event. \<open>now\<close> is \<^verbatim>\<open>time.Now().UnixNano()\<close>.
\<close>

definition reload ::
  "(string \<Rightarrow> string list option) \<Rightarrow>
   (string \<Rightarrow> string + (PartialResponseStrategy \<times> 'r Group) list) \<Rightarrow> int \<Rightarrow> string list \<Rightarrow>
   'r rule_state \<Rightarrow> 'r rule_state" where
  "reload Glob parseFile now ruleFiles st =
     (let files = globFiles Glob ruleFiles [] in
      case Managers_Update parseFile (ruleMgrs st) files of
        (Some err, mgrs) \<Rightarrow> st\<lparr>ruleMgrs := mgrs, configSuccess := 0\<rparr>
      | (None, mgrs) \<Rightarrow>
          (let st1 = st\<lparr>ruleMgrs := mgrs, configSuccess := 1,
                        configSuccessTime := real_of_int now / 10 ^ 9\<rparr>
           in st1\<lparr>rulesLoaded :=
                  fold (\<lambda>s. setRulesLoaded (String_strategy s) (mgrs s)) [WARN, ABORT] Map.empty\<rparr>))"

section \<open>Start-up checks (\<^verbatim>\<open>registerRule\<close> and \<^verbatim>\<open>runRule\<close>)\<close>

text \<open>
  \<^verbatim>\<open>parseFlagLabels\<close>. \<open>IsValid\<close> is \<^verbatim>\<open>model.LabelName.IsValid\<close> and \<open>Unquote\<close> is
  \<^verbatim>\<open>strconv.Unquote\<close> (\<open>None\<close> is an error); both are parameters.
\<close>

fun parseFlagLabels ::
  "(string \<Rightarrow> bool) \<Rightarrow> (string \<Rightarrow> string option) \<Rightarrow> string list \<Rightarrow> (string \<times> string) list \<Rightarrow>
   string + (string \<times> string) list" where
  "parseFlagLabels IsValid Unquote [] lset = Inr lset"
| "parseFlagLabels IsValid Unquote (l # ls) lset =
     (let parts = SplitN2 l (CHR ''='') in
      if length parts \<noteq> 2 then Inl (''unrecognized label '' @ l)
      else if \<not> IsValid (parts ! 0) then Inl (''unsupported format for label '' @ l)
      else case Unquote (parts ! 1) of
             None \<Rightarrow> Inl ''unquote label value''
           | Some val \<Rightarrow> parseFlagLabels IsValid Unquote ls (lset @ [(parts ! 0, val)]))"

text \<open>The loop over \<^verbatim>\<open>*queries\<close> with the map \<^verbatim>\<open>lookupQueries\<close> as a set.\<close>

fun lookupQueries_loop :: "string list \<Rightarrow> string set \<Rightarrow> error option" where
  "lookupQueries_loop [] lookupQueries = None"
| "lookupQueries_loop (q # qs) lookupQueries =
     (if q \<in> lookupQueries then Some (ErrDuplicatedQuery q)
      else lookupQueries_loop qs (insert q lookupQueries))"

text \<open>The loop at the head of \<^verbatim>\<open>runRule\<close> over \<^verbatim>\<open>queryAddrs\<close>.\<close>

fun queryAddrs_loop :: "string list \<Rightarrow> error option" where
  "queryAddrs_loop [] = None"
| "queryAddrs_loop (addr # rest) =
     (if addr = [] then Some ErrEmptyStaticQuerier else queryAddrs_loop rest)"

text \<open>
  The result of the set-up: the error it returns (\<open>None\<close> is \<^verbatim>\<open>nil\<close>) and whether it came
  as far as \<^verbatim>\<open>tsdb.Open\<close>, the first step of \<^verbatim>\<open>runRule\<close> that starts a part of the process.
\<close>

record setup_result =
  err :: "error option"
  tsdbOpened :: bool

text \<open>
  \<^verbatim>\<open>runRule\<close> up to \<^verbatim>\<open>tsdb.Open\<close>. \<open>rest\<close> is what \<^verbatim>\<open>tsdb.Open\<close> and everything after it
  return.
\<close>

definition runRule :: "string list \<Rightarrow> error option \<Rightarrow> setup_result" where
  "runRule queryAddrs rest =
     (case queryAddrs_loop queryAddrs of
        Some e \<Rightarrow> \<lparr>err = Some e, tsdbOpened = False\<rparr>
      | None \<Rightarrow> \<lparr>err = rest, tsdbOpened = True\<rparr>)"

text \<open>
  The set-up function \<^verbatim>\<open>registerRule\<close> stores in \<^verbatim>\<open>m[name]\<close>, on the values of the flags
  \<^verbatim>\<open>--label\<close>, \<^verbatim>\<open>--alert.query-url\<close>, \<^verbatim>\<open>--query\<close> and \<^verbatim>\<open>--query.sd-files\<close>. \<open>fileSD\<close> is
  \<^verbatim>\<open>nil\<close> exactly when no file SD pattern is given.
\<close>

definition registerRule_setup ::
  "(string \<Rightarrow> bool) \<Rightarrow> (string \<Rightarrow> string option) \<Rightarrow> (string \<Rightarrow> URL option) \<Rightarrow>
   string list \<Rightarrow> string \<Rightarrow> string list \<Rightarrow> string list \<Rightarrow> error option \<Rightarrow> setup_result" where
  "registerRule_setup IsValid Unquote parse labelStrs alertQueryURL queries fileSDFiles rest =
     (case parseFlagLabels IsValid Unquote labelStrs [] of
        Inl e \<Rightarrow> \<lparr>err = Some (ErrParseLabels e), tsdbOpened = False\<rparr>
      | Inr lset \<Rightarrow>
          (case parse alertQueryURL of
             None \<Rightarrow> \<lparr>err = Some (ErrParseAlertQueryURL alertQueryURL), tsdbOpened = False\<rparr>
           | Some u \<Rightarrow>
               (case lookupQueries_loop queries {} of
                  Some e \<Rightarrow> \<lparr>err = Some e, tsdbOpened = False\<rparr>
                | None \<Rightarrow>
                    (let fileSD_nil = \<not> 0 < length fileSDFiles in
                     if fileSD_nil \<and> length queries = 0
                     then \<lparr>err = Some ErrNoQueryParameter, tsdbOpened = False\<rparr>
                     else runRule queries rest))))"

section \<open>The address syntax of the specification\<close>

text \<open>
  The parsing rule in the words of the specification, to compare \<open>update\<close> with: an address
  is split on the first \<^verbatim>\<open>+\<close> into the query type \<open>qtype\<close> before it and the \<open>name\<close> after
  it; without a \<^verbatim>\<open>+\<close> the prefix is absent and the whole address is the name.
\<close>

definition spec_addr_parts :: "string \<Rightarrow> string \<Rightarrow> string \<Rightarrow> bool" where
  "spec_addr_parts addr qtype name =
     (if CHR ''+'' \<in> set addr
      then addr = qtype @ ''+'' @ name \<and> CHR ''+'' \<notin> set qtype
      else name = addr \<and> qtype = [])"

section \<open>Concrete inputs\<close>

text \<open>
  Stand-ins for the parameters at the concrete inputs used further down: a parser that
  accepts \<^verbatim>\<open>http://host/path\<close> without blanks, as \<^verbatim>\<open>url.Parse\<close> does, three query peers
  (\<^verbatim>\<open>b:1\<close> answers with a vector and a warning, \<^verbatim>\<open>c:1\<close> with a vector, every other peer
  refuses the connection), and the state of a fresh process.
\<close>

definition ex_parse :: "string \<Rightarrow> URL option" where
  "ex_parse s =
     (if take 7 s = ''http://'' \<and> CHR '' '' \<notin> set s
      then Some \<lparr>Scheme = ''http'',
                 Host = takeWhile (\<lambda>c. c \<noteq> CHR ''/'') (drop 7 s),
                 Path = dropWhile (\<lambda>c. c \<noteq> CHR ''/'') (drop 7 s),
                 User = None\<rparr>
      else None)"

definition ex_client :: "URL \<Rightarrow> (nat list) query_result" where
  "ex_client u =
     (if Host u = ''b:1'' then QueryOK [1, 2] [''store gateway X unreachable'']
      else if Host u = ''c:1'' then QueryOK [3] []
      else QueryErr ''connection refused'')"

definition ex_state :: eval_state where
  "ex_state = \<lparr>duplicatedQuery = 0, ruleEvalWarnings = (\<lambda>l. 0), requests = []\<rparr>"

definition ex_url :: "string \<Rightarrow> URL" where
  "ex_url h = \<lparr>Scheme = ''http'', Host = h, Path = [], User = None\<rparr>"

text \<open>
  For the Alertmanager set: a host has a port when it contains a colon, the resolver knows
  the A records of \<^verbatim>\<open>am.example:9093\<close> only, and two addresses are configured.
\<close>

definition ex_SplitHostPort :: "string \<Rightarrow> (string \<times> string) option" where
  "ex_SplitHostPort h =
     (if CHR '':'' \<in> set h
      then Some (takeWhile (\<lambda>c. c \<noteq> CHR '':'') h, tl (dropWhile (\<lambda>c. c \<noteq> CHR '':'') h))
      else None)"

definition ex_resolve :: "string \<Rightarrow> string \<Rightarrow> string + string list" where
  "ex_resolve host qtype =
     (if qtype = ''dns'' \<and> host = ''am.example:9093''
      then Inr [''10.0.0.1:9093'', ''10.0.0.2:9093'']
      else Inl ''lookup failed'')"

definition ex_alertmanagers :: alertmanagerSet where
  "ex_alertmanagers =
     \<lparr>addrs = [''dns+http://am.example/prefix'', ''http://am2:9093''],
      current = [\<lparr>Scheme = ''http'', Host = ''old:9093'', Path = [], User = None\<rparr>]\<rparr>"

definition ex_alertmanagers_bad :: alertmanagerSet where
  "ex_alertmanagers_bad =
     \<lparr>addrs = [''http://am2:9093'', ''dns+http://gone.example''],
      current = [\<lparr>Scheme = ''http'', Host = ''old:9093'', Path = [], User = None\<rparr>]\<rparr>"

text \<open>
  For the reload loop: the pattern \<^verbatim>\<open>rules/*.yaml\<close> matches a good and a broken rule file,
  \<^verbatim>\<open>ok/*.yaml\<close> the good one only, and every other pattern is a bad pattern. The good file
  holds the group \<^verbatim>\<open>g1\<close> with two rules and no strategy of its own.
\<close>

definition ex_Glob :: "string \<Rightarrow> string list option" where
  "ex_Glob pat =
     (if pat = ''rules/*.yaml'' then Some [''rules/a.yaml'', ''rules/bad.yaml'']
      else if pat = ''ok/*.yaml'' then Some [''rules/a.yaml'']
      else None)"

definition ex_group :: "string Group" where
  "ex_group = \<lparr>File = ''rules/a.yaml'', Name = ''g1'', Rules = [''up == 0'', ''up == 1'']\<rparr>"

definition ex_parseFile :: "string \<Rightarrow> string + (PartialResponseStrategy \<times> string Group) list" where
  "ex_parseFile fn =
     (if fn = ''rules/a.yaml'' then Inr [(ABORT, ex_group)]
      else Inl ''yaml: did not find expected key'')"

definition ex_rule_state :: "string rule_state" where
  "ex_rule_state =
     \<lparr>ruleMgrs = (\<lambda>s. if s = ABORT then [ex_group] else []),
      configSuccess = 1,
      configSuccessTime = 100,
      rulesLoaded = [(''ABORT'', ''rules/a.yaml'', ''g1'') \<mapsto> 2]\<rparr>"

text \<open>For the start-up checks: every label name is valid and no label value unquotes.\<close>

definition ex_IsValid :: "string \<Rightarrow> bool" where
  "ex_IsValid n = True"

definition ex_Unquote :: "string \<Rightarrow> string option" where
  "ex_Unquote v = None"

section \<open>Properties of the remote query function\<close>

lemma removeDuplicateQueryAddrs_loop_keys:
  "distinct keys \<Longrightarrow> removeDuplicateQueryAddrs_loop qaddrs keys cnt = (ks, c) \<Longrightarrow>
   distinct ks \<and> set ks = set keys \<union> set qaddrs"
  by (induction qaddrs keys cnt rule: removeDuplicateQueryAddrs_loop.induct) (auto split: if_splits)

lemma removeDuplicateQueryAddrs_other_fields:
  "removeDuplicateQueryAddrs qaddrs st = (d, st0) \<Longrightarrow>
   requests st0 = requests st \<and> ruleEvalWarnings st0 = ruleEvalWarnings st"
  by (auto simp: removeDuplicateQueryAddrs_def split: prod.splits)

lemma removeDuplicateQueryAddrs_Nil: "removeDuplicateQueryAddrs [] st = ([], st)"
  by (simp add: removeDuplicateQueryAddrs_def)

lemma ToLower_names: "ToLower ''WARN'' = ''warn''" "ToLower ''ABORT'' = ''abort''"
  by (simp_all add: ToLower_def)

lemma ToLower_strategy:
  "ToLower (String_strategy s) = (case s of WARN \<Rightarrow> ''warn'' | ABORT \<Rightarrow> ''abort'')"
  by (cases s) (simp_all add: ToLower_names)

lemma ex_parse_simps:
  "ex_parse ''http://a:1'' = Some (ex_url ''a:1'')"
  "ex_parse ''http://b:1'' = Some (ex_url ''b:1'')"
  "ex_parse ''http://c:1'' = Some (ex_url ''c:1'')"
  "ex_parse ''http://d:1'' = Some (ex_url ''d:1'')"
  by (simp_all add: ex_parse_def ex_url_def)

lemma ex_client_simps:
  "ex_client (ex_url ''a:1'') = QueryErr ''connection refused''"
  "ex_client (ex_url ''b:1'') = QueryOK [1, 2] [''store gateway X unreachable'']"
  "ex_client (ex_url ''c:1'') = QueryOK [3] []"
  "ex_client (ex_url ''d:1'') = QueryErr ''connection refused''"
  by (simp_all add: ex_client_def ex_url_def)

text \<open>When every attempt fails, every index of the list is tried, in order.\<close>

lemma queryFunc_loop_all_fail:
  "\<forall>i\<in>set is. i < length qaddrs \<and>
      (\<exists>u e. parse (''http://'' @ qaddrs ! i) = Some u \<and> client u = QueryErr e) \<Longrightarrow>
   \<exists>us. queryFunc_loop parse client strategy qaddrs is st =
          (Inl ErrNoQueryPeerReachable, st\<lparr>requests := requests st @ us\<rparr>) \<and>
        map Some us = map (\<lambda>i. parse (''http://'' @ qaddrs ! i)) is"
proof (induction "is" arbitrary: st)
  case Nil
  then show ?case by simp
next
  case (Cons i rest)
  from Cons.prems obtain u e where
    i: "i < length qaddrs" "parse (''http://'' @ qaddrs ! i) = Some u" "client u = QueryErr e"
    by auto
  from Cons.prems have "\<forall>i\<in>set rest. i < length qaddrs \<and>
      (\<exists>u e. parse (''http://'' @ qaddrs ! i) = Some u \<and> client u = QueryErr e)"
    by simp
  from Cons.IH[OF this, of "st\<lparr>requests := requests st @ [u]\<rparr>"] obtain us where
    us: "queryFunc_loop parse client strategy qaddrs rest (st\<lparr>requests := requests st @ [u]\<rparr>) =
          (Inl ErrNoQueryPeerReachable,
           st\<lparr>requests := requests st @ [u]\<rparr>
             \<lparr>requests := requests (st\<lparr>requests := requests st @ [u]\<rparr>) @ us\<rparr>)"
        "map Some us = map (\<lambda>i. parse (''http://'' @ qaddrs ! i)) rest"
    by blast
  show ?case
    by (rule exI[of _ "u # us"]) (use i us in simp)
qed

text \<open>The loop stops at the first attempt that succeeds.\<close>

lemma queryFunc_loop_first_success:
  assumes "\<forall>i\<in>set pre. i < length qaddrs \<and>
      (\<exists>u e. parse (''http://'' @ qaddrs ! i) = Some u \<and> client u = QueryErr e)"
    and "i < length qaddrs" "parse (''http://'' @ qaddrs ! i) = Some u" "client u = QueryOK v warns"
  shows "\<exists>us st'. queryFunc_loop parse client strategy qaddrs (pre @ i # post) st = (Inr v, st') \<and>
        requests st' = requests st @ us @ [u] \<and>
        map Some us = map (\<lambda>i. parse (''http://'' @ qaddrs ! i)) pre"
  using assms(1)
proof (induction pre arbitrary: st)
  case Nil
  then show ?case using assms(2-4) by (auto simp: Let_def)
next
  case (Cons j rest)
  from Cons.prems obtain u' e where
    j: "j < length qaddrs" "parse (''http://'' @ qaddrs ! j) = Some u'" "client u' = QueryErr e"
    by auto
  from Cons.prems have "\<forall>i\<in>set rest. i < length qaddrs \<and>
      (\<exists>u e. parse (''http://'' @ qaddrs ! i) = Some u \<and> client u = QueryErr e)"
    by simp
  from Cons.IH[OF this, of "st\<lparr>requests := requests st @ [u']\<rparr>"] obtain us st' where
    us: "queryFunc_loop parse client strategy qaddrs (rest @ i # post)
           (st\<lparr>requests := requests st @ [u']\<rparr>) = (Inr v, st')"
        "requests st' = requests (st\<lparr>requests := requests st @ [u']\<rparr>) @ us @ [u]"
        "map Some us = map (\<lambda>i. parse (''http://'' @ qaddrs ! i)) rest"
    by blast
  show ?case
    by (rule exI[of _ "u' # us"], rule exI[of _ st']) (use j us in simp)
qed

text \<open>A successful call ends with the request that succeeded, after failed ones only.\<close>

lemma queryFunc_loop_success:
  "queryFunc_loop parse client strategy qaddrs is st = (Inr v, st') \<Longrightarrow>
   \<exists>us u warns. requests st' = requests st @ us @ [u] \<and> client u = QueryOK v warns \<and>
      (\<forall>x\<in>set us. \<exists>e. client x = QueryErr e) \<and>
      ruleEvalWarnings st' =
        (if warns \<noteq> []
         then WithLabelValues_Inc (ruleEvalWarnings st) (ToLower (String_strategy strategy))
         else ruleEvalWarnings st)"
proof (induction "is" arbitrary: st)
  case Nil
  then show ?case by simp
next
  case (Cons i rest)
  from Cons.prems have i: "i < length qaddrs" by (auto split: if_splits)
  from Cons.prems i obtain u where u: "parse (''http://'' @ qaddrs ! i) = Some u"
    by (auto split: option.splits)
  show ?case
  proof (cases "client u")
    case (QueryErr e)
    with Cons.prems i u have
      "queryFunc_loop parse client strategy qaddrs rest (st\<lparr>requests := requests st @ [u]\<rparr>) = (Inr v, st')"
      by simp
    from Cons.IH[OF this] obtain us u' warns where
      "requests st' = requests st @ [u] @ us @ [u']" "client u' = QueryOK v warns"
      "\<forall>x\<in>set us. \<exists>e. client x = QueryErr e"
      "ruleEvalWarnings st' =
        (if warns \<noteq> []
         then WithLabelValues_Inc (ruleEvalWarnings st) (ToLower (String_strategy strategy))
         else ruleEvalWarnings st)"
      by auto
    then show ?thesis using QueryErr
      by (intro exI[of _ "u # us"] exI[of _ u'] exI[of _ warns]) simp
  next
    case (QueryOK v' warns)
    with Cons.prems i u show ?thesis
      by (intro exI[of _ "[]"] exI[of _ u] exI[of _ warns]) (auto split: if_splits)
  qed
qed

text \<open>
  C1. The claim: the addresses the loop of \<open>Eval\<close> iterates over are deduplicated before the
  permutation is drawn, so that no address is tried twice in one call. The source calls
  \<^verbatim>\<open>removeDuplicateQueryAddrs\<close> and drops what it returns: on the snapshot
  \<^verbatim>\<open>["a:1", "a:1"]\<close> with an unreachable peer the deduplicated list has one entry and the
  counter goes up by one, but the loop still sends two requests to \<^verbatim>\<open>a:1\<close>.
\<close>

theorem queryFunc_duplicate_address_tried_twice:
  "fst (removeDuplicateQueryAddrs [''a:1'', ''a:1''] ex_state) = [''a:1''] \<and>
   isPerm (length [''a:1'', ''a:1'']) [0, 1] \<and>
   queryFunc ex_parse ex_client WARN [''a:1'', ''a:1''] [0, 1] ex_state =
     (Inl ErrNoQueryPeerReachable,
      ex_state\<lparr>duplicatedQuery := 1, requests := [ex_url ''a:1'', ex_url ''a:1'']\<rparr>)"
  by (simp add: queryFunc_def removeDuplicateQueryAddrs_def isPerm_def ex_parse_simps
      ex_client_simps ex_state_def atLeastLessThanSuc insert_commute)

text \<open>
  C2, as claimed: the warning counter is incremented only when the strategy is WARN. It fails:
  with the strategy ABORT, a successful answer that carries a warning increments the child
  \<^verbatim>\<open>strategy="abort"\<close> of the counter vector.
\<close>

theorem queryFunc_abort_warning_counted:
  "fst (queryFunc ex_parse ex_client ABORT [''b:1''] [0] ex_state) = Inr [1, 2] \<and>
   ex_client (ex_url ''b:1'') = QueryOK [1, 2] [''store gateway X unreachable''] \<and>
   ruleEvalWarnings ex_state ''abort'' = 0 \<and>
   ruleEvalWarnings (snd (queryFunc ex_parse ex_client ABORT [''b:1''] [0] ex_state)) ''abort'' = 1"
  by (simp add: queryFunc_def removeDuplicateQueryAddrs_def ex_parse_simps ex_client_simps
      ex_state_def WithLabelValues_Inc_def ToLower_names)

text \<open>
  C2, amended: for every call of \<open>Eval\<close> that succeeds, the last request is the one that
  succeeded; if its answer carries at least one warning, the child of
  \<^verbatim>\<open>thanos_rule_evaluation_with_warnings_total\<close> labelled with the lower-case name of the
  strategy of the query function (\<^verbatim>\<open>warn\<close> or \<^verbatim>\<open>abort\<close>) is incremented by one and no other
  child changes; without warnings the counter vector is unchanged.
\<close>

theorem queryFunc_warning_counter:
  assumes "queryFunc parse client strategy qaddrs perm st = (Inr v, st')"
  shows "\<exists>u warns. requests st' \<noteq> [] \<and> last (requests st') = u \<and> client u = QueryOK v warns \<and>
     ruleEvalWarnings st' =
       (if 0 < length warns
        then (ruleEvalWarnings st)
               ((case strategy of WARN \<Rightarrow> ''warn'' | ABORT \<Rightarrow> ''abort'') :=
                  Suc (ruleEvalWarnings st (case strategy of WARN \<Rightarrow> ''warn'' | ABORT \<Rightarrow> ''abort'')))
        else ruleEvalWarnings st)"
proof -
  obtain d st0 where d: "removeDuplicateQueryAddrs qaddrs st = (d, st0)"
    by (cases "removeDuplicateQueryAddrs qaddrs st")
  with assms have loop: "queryFunc_loop parse client strategy qaddrs perm st0 = (Inr v, st')"
    by (simp add: queryFunc_def)
  from queryFunc_loop_success[OF loop] obtain us u warns where
    r: "requests st' = requests st0 @ us @ [u]" "client u = QueryOK v warns"
      "ruleEvalWarnings st' =
        (if warns \<noteq> []
         then WithLabelValues_Inc (ruleEvalWarnings st0) (ToLower (String_strategy strategy))
         else ruleEvalWarnings st0)"
    by blast
  from removeDuplicateQueryAddrs_other_fields[OF d] have "ruleEvalWarnings st0 = ruleEvalWarnings st"
    by simp
  with r show ?thesis
    by (intro exI[of _ u] exI[of _ warns]) (simp add: WithLabelValues_Inc_def ToLower_strategy)
qed

theorem queryFunc_warning_counter_witness:
  "\<exists>u warns. requests (ex_state\<lparr>ruleEvalWarnings := (\<lambda>l. 0)(''abort'' := 1),
                                requests := [ex_url ''a:1'', ex_url ''b:1'']\<rparr>) \<noteq> [] \<and>
     last (requests (ex_state\<lparr>ruleEvalWarnings := (\<lambda>l. 0)(''abort'' := 1),
                               requests := [ex_url ''a:1'', ex_url ''b:1'']\<rparr>)) = u \<and>
     ex_client u = QueryOK [1, 2] warns \<and>
     ruleEvalWarnings (ex_state\<lparr>ruleEvalWarnings := (\<lambda>l. 0)(''abort'' := 1),
                                requests := [ex_url ''a:1'', ex_url ''b:1'']\<rparr>) =
       (if 0 < length warns
        then (ruleEvalWarnings ex_state)
               ((case ABORT of WARN \<Rightarrow> ''warn'' | ABORT \<Rightarrow> ''abort'') :=
                  Suc (ruleEvalWarnings ex_state (case ABORT of WARN \<Rightarrow> ''warn'' | ABORT \<Rightarrow> ''abort'')))
        else ruleEvalWarnings ex_state)"
proof -
  have "queryFunc ex_parse ex_client ABORT [''a:1'', ''b:1''] [0, 1] ex_state =
          (Inr [1, 2], ex_state\<lparr>ruleEvalWarnings := (\<lambda>l. 0)(''abort'' := 1),
                                requests := [ex_url ''a:1'', ex_url ''b:1'']\<rparr>)"
    by (simp add: queryFunc_def removeDuplicateQueryAddrs_def ex_parse_simps ex_client_simps
        ex_state_def WithLabelValues_Inc_def ToLower_names)
  from queryFunc_warning_counter[OF this] show ?thesis .
qed

text \<open>
  C4. For a non-empty snapshot and a permutation \<open>perm\<close> of its indices: if the attempt at
  every address fails (a transport error or a non-2xx answer, \<open>QueryErr\<close>), the call makes one
  request per index in the order of \<open>perm\<close> and returns the error
  \<^verbatim>\<open>no query peer reachable\<close>; if the attempts at the indices \<open>pre\<close> fail and the next one
  succeeds with the vector \<open>v\<close>, the call returns \<open>v\<close> without an error, and its requests are
  those of \<open>pre\<close> followed by the successful one, none for the indices after it.
\<close>

theorem queryFunc_tries_permutation:
  assumes "qaddrs \<noteq> []" and "isPerm (length qaddrs) perm"
  shows
    "((\<forall>a\<in>set qaddrs. \<exists>u e. parse (''http://'' @ a) = Some u \<and> client u = QueryErr e) \<longrightarrow>
        (\<exists>us st'. queryFunc parse client strategy qaddrs perm st = (Inl ErrNoQueryPeerReachable, st') \<and>
           Error ErrNoQueryPeerReachable = ''no query peer reachable'' \<and>
           requests st' = requests st @ us \<and>
           map Some us = map (\<lambda>i. parse (''http://'' @ qaddrs ! i)) perm)) \<and>
     (\<forall>pre i post u v warns.
        perm = pre @ i # post \<and>
        (\<forall>j\<in>set pre. \<exists>u e. parse (''http://'' @ qaddrs ! j) = Some u \<and> client u = QueryErr e) \<and>
        parse (''http://'' @ qaddrs ! i) = Some u \<and> client u = QueryOK v warns \<longrightarrow>
        (\<exists>us st'. queryFunc parse client strategy qaddrs perm st = (Inr v, st') \<and>
           requests st' = requests st @ us @ [u] \<and>
           map Some us = map (\<lambda>j. parse (''http://'' @ qaddrs ! j)) pre))"
proof -
  obtain d st0 where d: "removeDuplicateQueryAddrs qaddrs st = (d, st0)"
    by (cases "removeDuplicateQueryAddrs qaddrs st")
  from removeDuplicateQueryAddrs_other_fields[OF d] have r0: "requests st0 = requests st"
    by simp
  from assms(2) have range: "\<forall>i\<in>set perm. i < length qaddrs"
    by (simp add: isPerm_def)
  have all_fail: "\<exists>us st'. queryFunc parse client strategy qaddrs perm st = (Inl ErrNoQueryPeerReachable, st') \<and>
           Error ErrNoQueryPeerReachable = ''no query peer reachable'' \<and>
           requests st' = requests st @ us \<and>
           map Some us = map (\<lambda>i. parse (''http://'' @ qaddrs ! i)) perm"
    if f: "\<forall>a\<in>set qaddrs. \<exists>u e. parse (''http://'' @ a) = Some u \<and> client u = QueryErr e"
  proof -
    from f range have "\<forall>i\<in>set perm. i < length qaddrs \<and>
        (\<exists>u e. parse (''http://'' @ qaddrs ! i) = Some u \<and> client u = QueryErr e)"
      by simp
    from queryFunc_loop_all_fail[OF this, of strategy st0] obtain us where
      "queryFunc_loop parse client strategy qaddrs perm st0 =
         (Inl ErrNoQueryPeerReachable, st0\<lparr>requests := requests st0 @ us\<rparr>)"
      "map Some us = map (\<lambda>i. parse (''http://'' @ qaddrs ! i)) perm"
      by blast
    with d r0 show ?thesis
      by (intro exI[of _ us] exI[of _ "st0\<lparr>requests := requests st0 @ us\<rparr>"])
         (simp add: queryFunc_def)
  qed
  have first_success: "\<exists>us st'. queryFunc parse client strategy qaddrs perm st = (Inr v, st') \<and>
           requests st' = requests st @ us @ [u] \<and>
           map Some us = map (\<lambda>j. parse (''http://'' @ qaddrs ! j)) pre"
    if p: "perm = pre @ i # post"
      and f: "\<forall>j\<in>set pre. \<exists>u e. parse (''http://'' @ qaddrs ! j) = Some u \<and> client u = QueryErr e"
      and s: "parse (''http://'' @ qaddrs ! i) = Some u" "client u = QueryOK v warns"
    for pre i post u v warns
  proof -
    from range p have i: "i < length qaddrs" by simp
    from range p f have "\<forall>j\<in>set pre. j < length qaddrs \<and>
        (\<exists>u e. parse (''http://'' @ qaddrs ! j) = Some u \<and> client u = QueryErr e)"
      by simp
    from queryFunc_loop_first_success[OF this i s, of strategy post st0] obtain us st' where
      "queryFunc_loop parse client strategy qaddrs (pre @ i # post) st0 = (Inr v, st')"
      "requests st' = requests st0 @ us @ [u]"
      "map Some us = map (\<lambda>j. parse (''http://'' @ qaddrs ! j)) pre"
      by blast
    with d r0 p show ?thesis
      by (intro exI[of _ us] exI[of _ st']) (simp add: queryFunc_def)
  qed
  from all_fail first_success show ?thesis by blast
qed

text \<open>
  The theorem at two calls. Snapshot \<^verbatim>\<open>a:1, b:1, c:1\<close> tried in the order 0, 1, 2: \<^verbatim>\<open>a:1\<close>
  fails, \<^verbatim>\<open>b:1\<close> answers, and \<^verbatim>\<open>c:1\<close> is not asked. Snapshot \<^verbatim>\<open>a:1, d:1\<close> tried in the
  order 1, 0: both fail.
\<close>

theorem queryFunc_tries_permutation_witness:
  "(\<exists>us st'. queryFunc ex_parse ex_client WARN [''a:1'', ''b:1'', ''c:1''] [0, 1, 2] ex_state =
       (Inr [1, 2], st') \<and>
     requests st' = requests ex_state @ us @ [ex_url ''b:1''] \<and>
     map Some us = map (\<lambda>j. ex_parse (''http://'' @ [''a:1'', ''b:1'', ''c:1''] ! j)) [0]) \<and>
   (\<exists>us st'. queryFunc ex_parse ex_client WARN [''a:1'', ''d:1''] [1, 0] ex_state =
       (Inl ErrNoQueryPeerReachable, st') \<and>
     Error ErrNoQueryPeerReachable = ''no query peer reachable'' \<and>
     requests st' = requests ex_state @ us \<and>
     map Some us = map (\<lambda>i. ex_parse (''http://'' @ [''a:1'', ''d:1''] ! i)) [1, 0])"
proof
  have ne: "[''a:1'', ''b:1'', ''c:1''] \<noteq> []" by simp
  have p: "isPerm (length [''a:1'', ''b:1'', ''c:1'']) [0, 1, 2]"
    by (auto simp: isPerm_def)
  have "[0, 1, 2] = [0] @ 1 # [2::nat] \<and>
        (\<forall>j\<in>set [0::nat]. \<exists>u e. ex_parse (''http://'' @ [''a:1'', ''b:1'', ''c:1''] ! j) = Some u \<and>
            ex_client u = QueryErr e) \<and>
        ex_parse (''http://'' @ [''a:1'', ''b:1'', ''c:1''] ! 1) = Some (ex_url ''b:1'') \<and>
        ex_client (ex_url ''b:1'') = QueryOK [1, 2] [''store gateway X unreachable'']"
    by (simp add: ex_parse_simps ex_client_simps)
  with queryFunc_tries_permutation[OF ne p, of ex_parse ex_client WARN ex_state]
  show "\<exists>us st'. queryFunc ex_parse ex_client WARN [''a:1'', ''b:1'', ''c:1''] [0, 1, 2] ex_state =
       (Inr [1, 2], st') \<and>
     requests st' = requests ex_state @ us @ [ex_url ''b:1''] \<and>
     map Some us = map (\<lambda>j. ex_parse (''http://'' @ [''a:1'', ''b:1'', ''c:1''] ! j)) [0]"
    by blast
next
  have ne: "[''a:1'', ''d:1''] \<noteq> []" by simp
  have p: "isPerm (length [''a:1'', ''d:1'']) [1, 0]"
    by (auto simp: isPerm_def)
  have "\<forall>a\<in>set [''a:1'', ''d:1'']. \<exists>u e. ex_parse (''http://'' @ a) = Some u \<and> ex_client u = QueryErr e"
    by (simp add: ex_parse_simps ex_client_simps)
  with queryFunc_tries_permutation[OF ne p, of ex_parse ex_client WARN ex_state]
  show "\<exists>us st'. queryFunc ex_parse ex_client WARN [''a:1'', ''d:1''] [1, 0] ex_state =
       (Inl ErrNoQueryPeerReachable, st') \<and>
     Error ErrNoQueryPeerReachable = ''no query peer reachable'' \<and>
     requests st' = requests ex_state @ us \<and>
     map Some us = map (\<lambda>i. ex_parse (''http://'' @ [''a:1'', ''d:1''] ! i)) [1, 0]"
    by blast
qed

text \<open>
  C5. With an empty snapshot the only permutation is the empty one: the call returns the error
  \<^verbatim>\<open>no query peer reachable\<close>, sends no request and leaves the state as it was.
\<close>

theorem queryFunc_empty_snapshot:
  assumes "isPerm (length ([] :: string list)) perm"
  shows "queryFunc parse client strategy [] perm st = (Inl ErrNoQueryPeerReachable, st) \<and>
         Error ErrNoQueryPeerReachable = ''no query peer reachable'' \<and>
         requests (snd (queryFunc parse client strategy [] perm st)) = requests st"
proof -
  from assms have "perm = []" by (simp add: isPerm_def)
  then show ?thesis
    by (simp add: queryFunc_def removeDuplicateQueryAddrs_Nil)
qed

theorem queryFunc_empty_snapshot_witness:
  "isPerm (length ([] :: string list)) [] \<and>
   queryFunc ex_parse ex_client ABORT [] [] ex_state = (Inl ErrNoQueryPeerReachable, ex_state) \<and>
   Error ErrNoQueryPeerReachable = ''no query peer reachable'' \<and>
   requests (snd (queryFunc ex_parse ex_client ABORT [] [] ex_state)) = requests ex_state"
proof -
  have p: "isPerm (length ([] :: string list)) []" by (simp add: isPerm_def)
  from p queryFunc_empty_snapshot[OF p, of ex_parse ex_client ABORT ex_state] show ?thesis
    by blast
qed

section \<open>Properties of the notify callback\<close>

lemma notify_loop_append:
  "notify_loop g alerts res =
     res @ map (\<lambda>alrt. \<lparr>StartsAt = FiredAt alrt,
                        EndsAt = (if IsZero (ResolvedAt alrt) then 0 else ResolvedAt alrt),
                        alert_Labels = Labels alrt, alert_Annotations = Annotations alrt,
                        GeneratorURL = g\<rparr>)
             (filter (\<lambda>alrt. State alrt \<noteq> StatePending) alerts)"
  by (induction alerts arbitrary: res) (simp_all add: Let_def)

text \<open>
  C6. One call of \<open>notify\<close> makes one call of \<^verbatim>\<open>alertQ.Push\<close>. Its argument has one
  notification for each alert that is not pending, in the order of the alerts, and none for a
  pending alert. The notification starts at \<open>FiredAt\<close>, takes labels and annotations from the
  alert, and its \<open>EndsAt\<close> is non-zero exactly when \<open>ResolvedAt\<close> is, and then equals it.
\<close>

theorem notify_pushes_non_pending:
  "\<exists>res. notify queryURL TableLinkForExpression expr alerts pushed = pushed @ [res] \<and>
     list_all2
       (\<lambda>alrt a. StartsAt a = FiredAt alrt \<and>
                  (\<not> IsZero (EndsAt a)) = (\<not> IsZero (ResolvedAt alrt)) \<and>
                  EndsAt a = (if IsZero (ResolvedAt alrt) then 0 else ResolvedAt alrt) \<and>
                  alert_Labels a = Labels alrt \<and> alert_Annotations a = Annotations alrt \<and>
                  GeneratorURL a = queryURL @ TableLinkForExpression expr)
       (filter (\<lambda>alrt. State alrt \<noteq> StatePending) alerts) res"
proof -
  let ?g = "queryURL @ TableLinkForExpression expr"
  let ?mk = "\<lambda>alrt. \<lparr>StartsAt = FiredAt alrt,
                        EndsAt = (if IsZero (ResolvedAt alrt) then 0 else ResolvedAt alrt),
                        alert_Labels = Labels alrt, alert_Annotations = Annotations alrt,
                        GeneratorURL = ?g\<rparr>"
  let ?firing = "filter (\<lambda>alrt. State alrt \<noteq> StatePending) alerts"
  have "notify queryURL TableLinkForExpression expr alerts pushed = pushed @ [map ?mk ?firing]"
    by (simp add: notify_def notify_loop_append)
  moreover have "list_all2
       (\<lambda>alrt a. StartsAt a = FiredAt alrt \<and>
                  (\<not> IsZero (EndsAt a)) = (\<not> IsZero (ResolvedAt alrt)) \<and>
                  EndsAt a = (if IsZero (ResolvedAt alrt) then 0 else ResolvedAt alrt) \<and>
                  alert_Labels a = Labels alrt \<and> alert_Annotations a = Annotations alrt \<and>
                  GeneratorURL a = ?g)
       ?firing (map ?mk ?firing)"
    by (simp add: list_all2_map2 list.rel_refl IsZero_def)
  ultimately show ?thesis by blast
qed

section \<open>Properties of the Alertmanager set\<close>

lemma Itoa_defaultAlertmanagerPort: "Itoa defaultAlertmanagerPort = ''9093''"
  unfolding defaultAlertmanagerPort_def
  by (subst Itoa.simps, simp)+

text \<open>\<open>SplitN2\<close> splits at the first separator.\<close>

lemma SplitN2_absent: "sep \<notin> set s \<Longrightarrow> SplitN2 s sep = [s]"
  by (simp add: SplitN2_def)

lemma SplitN2_present:
  assumes "sep \<in> set s"
  shows "\<exists>before after. SplitN2 s sep = [before, after] \<and> s = before @ sep # after \<and>
           sep \<notin> set before"
proof -
  let ?b = "takeWhile (\<lambda>c. c \<noteq> sep) s" and ?d = "dropWhile (\<lambda>c. c \<noteq> sep) s"
  from assms have "?d \<noteq> []" by auto
  moreover from this have "hd ?d = sep" using hd_dropWhile[of "\<lambda>c. c \<noteq> sep" s] by simp
  ultimately have "?d = sep # tl ?d" by (cases ?d) simp_all
  then have "s = ?b @ sep # tl ?d" using takeWhile_dropWhile_id[of "\<lambda>c. c \<noteq> sep" s] by simp
  moreover have "sep \<notin> set ?b" by (auto dest: set_takeWhileD)
  ultimately show ?thesis using assms by (auto simp: SplitN2_def)
qed

lemma split_at_first:
  assumes "sep \<notin> set q"
  shows "takeWhile (\<lambda>c. c \<noteq> sep) (q @ sep # n) = q"
    and "dropWhile (\<lambda>c. c \<noteq> sep) (q @ sep # n) = sep # n"
proof -
  from assms have a: "\<And>x. x \<in> set q \<Longrightarrow> x \<noteq> sep" by blast
  show "takeWhile (\<lambda>c. c \<noteq> sep) (q @ sep # n) = q"
    using takeWhile_append2[of q "\<lambda>c. c \<noteq> sep" "sep # n"] a by simp
  show "dropWhile (\<lambda>c. c \<noteq> sep) (q @ sep # n) = sep # n"
    using dropWhile_append2[of q "\<lambda>c. c \<noteq> sep" "sep # n"] a by simp
qed

lemma addr_parts_SplitN2:
  assumes "spec_addr_parts addr qtype name"
  shows "SplitN2 addr (CHR ''+'') = (if CHR ''+'' \<in> set addr then [qtype, name] else [addr])"
proof (cases "CHR ''+'' \<in> set addr")
  case True
  with assms have a: "addr = qtype @ CHR ''+'' # name" and q: "CHR ''+'' \<notin> set qtype"
    by (simp_all add: spec_addr_parts_def)
  have "takeWhile (\<lambda>c. c \<noteq> CHR ''+'') addr = qtype"
    unfolding a using split_at_first(1)[OF q] by blast
  moreover have "tl (dropWhile (\<lambda>c. c \<noteq> CHR ''+'') addr) = name"
    unfolding a using split_at_first(2)[OF q, of name] by simp
  ultimately show ?thesis using True by (simp add: SplitN2_def)
next
  case False
  then show ?thesis by (simp add: SplitN2_def)
qed

lemma addr_parts_exists: "\<exists>qtype name. spec_addr_parts addr qtype name"
proof (cases "CHR ''+'' \<in> set addr")
  case True
  from SplitN2_present[OF True] obtain before after where
    "addr = before @ CHR ''+'' # after" "CHR ''+'' \<notin> set before"
    by blast
  with True have "spec_addr_parts addr before after" by (simp add: spec_addr_parts_def)
  then show ?thesis by blast
next
  case False
  then have "spec_addr_parts addr [] addr" by (simp add: spec_addr_parts_def)
  then show ?thesis by blast
qed

text \<open>One turn of the loop of \<open>update\<close>, in terms of the parts of the address.\<close>

lemma update_addr_parts:
  assumes "spec_addr_parts addr qtype name"
  shows "update_addr parse SplitHostPort resolve addr =
       (case parse name of
          None \<Rightarrow> Inl (ErrParseURL name)
        | Some u \<Rightarrow>
            (case (if qtype = [] then Inr [Host u]
                   else resolve (if qtype = ''dns'' \<and> SplitHostPort (Host u) = None
                                 then Host u @ '':9093'' else Host u) qtype) of
               Inl e \<Rightarrow> Inl (ErrAlertmanagerResolve e)
             | Inr rs \<Rightarrow> Inr (map (\<lambda>h. \<lparr>Scheme = Scheme u, Host = h, Path = Path u, User = User u\<rparr>) rs)))"
proof (cases "CHR ''+'' \<in> set addr")
  case True
  with addr_parts_SplitN2[OF assms] have s: "SplitN2 addr (CHR ''+'') = [qtype, name]"
    by simp
  show ?thesis
  proof (cases "parse name")
    case None
    then show ?thesis by (simp add: update_addr_def s)
  next
    case (Some u)
    show ?thesis
    proof (cases "SplitHostPort (Host u)")
      case None
      with Some show ?thesis
        by (simp add: update_addr_def s dns_A_def Itoa_defaultAlertmanagerPort)
    next
      case (Some hp)
      with \<open>parse name = Some u\<close> show ?thesis
        by (simp add: update_addr_def s dns_A_def)
    qed
  qed
next
  case False
  with assms have n: "name = addr" "qtype = []" by (simp_all add: spec_addr_parts_def)
  from False addr_parts_SplitN2[OF assms] have s: "SplitN2 addr (CHR ''+'') = [addr]"
    by simp
  show ?thesis
    by (cases "parse addr") (simp_all add: update_addr_def s n)
qed

lemma update_loop_success:
  "update_loop parse SplitHostPort resolve as acc = Inr res \<Longrightarrow>
   \<exists>urlss. res = acc @ concat urlss \<and>
     list_all2 (\<lambda>addr urls. update_addr parse SplitHostPort resolve addr = Inr urls) as urlss"
proof (induction as arbitrary: acc)
  case Nil
  then show ?case by simp
next
  case (Cons a as)
  from Cons.prems obtain us where
    us: "update_addr parse SplitHostPort resolve a = Inr us"
      "update_loop parse SplitHostPort resolve as (acc @ us) = Inr res"
    by (auto split: sum.splits)
  from Cons.IH[OF us(2)] obtain urlss where
    "res = (acc @ us) @ concat urlss"
    "list_all2 (\<lambda>addr urls. update_addr parse SplitHostPort resolve addr = Inr urls) as urlss"
    by blast
  with us(1) show ?case
    by (intro exI[of _ "us # urlss"]) simp
qed

lemma update_loop_failure:
  "a \<in> set as \<Longrightarrow> update_addr parse SplitHostPort resolve a = Inl e \<Longrightarrow>
   \<exists>e'. update_loop parse SplitHostPort resolve as acc = Inl e'"
  by (induction as arbitrary: acc) (auto split: sum.splits)

lemma update_addr_success_parts:
  assumes "update_addr parse SplitHostPort resolve addr = Inr urls"
  shows "\<exists>qtype name u hosts. spec_addr_parts addr qtype name \<and> parse name = Some u \<and>
           urls = map (\<lambda>h. \<lparr>Scheme = Scheme u, Host = h, Path = Path u, User = User u\<rparr>) hosts \<and>
           (if qtype = [] then hosts = [Host u]
            else resolve (if qtype = ''dns'' \<and> SplitHostPort (Host u) = None
                          then Host u @ '':9093'' else Host u) qtype = Inr hosts)"
proof -
  from addr_parts_exists obtain qtype name where p: "spec_addr_parts addr qtype name" by blast
  note eq = update_addr_parts[OF p, of parse SplitHostPort resolve]
  from assms eq obtain u where u: "parse name = Some u"
    by (cases "parse name") simp_all
  show ?thesis
  proof (cases "qtype = []")
    case True
    with assms eq u have "urls = map (\<lambda>h. \<lparr>Scheme = Scheme u, Host = h, Path = Path u, User = User u\<rparr>) [Host u]"
      by simp
    with p u True show ?thesis by (intro exI[of _ qtype] exI[of _ name] exI[of _ u] exI[of _ "[Host u]"]) simp
  next
    case False
    let ?h = "if qtype = ''dns'' \<and> SplitHostPort (Host u) = None then Host u @ '':9093'' else Host u"
    from assms eq u False obtain hosts where
      h: "resolve ?h qtype = Inr hosts"
         "urls = map (\<lambda>h. \<lparr>Scheme = Scheme u, Host = h, Path = Path u, User = User u\<rparr>) hosts"
      by (cases "resolve ?h qtype") simp_all
    with p u False show ?thesis
      by (intro exI[of _ qtype] exI[of _ name] exI[of _ u] exI[of _ hosts]) simp
  qed
qed

text \<open>
  C7. When \<open>update\<close> returns without an error, the new slice is the concatenation, in the
  order of the configured addresses, of one list of URLs per address. With \<open>qtype\<close> and
  \<open>name\<close> the parts of the address and \<open>u\<close> the parsed name, the list has one URL per resolved
  host, each with the scheme, path and user info of \<open>u\<close>. Without a prefix the only host is
  the host of \<open>u\<close>, unchanged and unresolved; with the prefix \<^verbatim>\<open>dns\<close> and a host that
  \<^verbatim>\<open>net.SplitHostPort\<close> rejects, the resolver is asked for the host with \<^verbatim>\<open>:9093\<close> appended;
  in every other case it is asked for the host as it is.
\<close>

theorem update_success_urls:
  assumes "update parse SplitHostPort resolve s = (None, s')"
  shows "\<exists>urlss. get s' = concat urlss \<and>
     list_all2
       (\<lambda>addr urls. \<exists>qtype name u hosts. spec_addr_parts addr qtype name \<and> parse name = Some u \<and>
           urls = map (\<lambda>h. \<lparr>Scheme = Scheme u, Host = h, Path = Path u, User = User u\<rparr>) hosts \<and>
           (if qtype = [] then hosts = [Host u]
            else resolve (if qtype = ''dns'' \<and> SplitHostPort (Host u) = None
                          then Host u @ '':9093'' else Host u) qtype = Inr hosts))
       (addrs s) urlss"
proof -
  from assms obtain res where
    res: "update_loop parse SplitHostPort resolve (addrs s) [] = Inr res" "s' = s\<lparr>current := res\<rparr>"
    by (auto simp: update_def split: sum.splits)
  from update_loop_success[OF res(1)] obtain urlss where
    u: "res = concat urlss"
       "list_all2 (\<lambda>addr urls. update_addr parse SplitHostPort resolve addr = Inr urls) (addrs s) urlss"
    by auto
  from u(2) have "list_all2
       (\<lambda>addr urls. \<exists>qtype name u hosts. spec_addr_parts addr qtype name \<and> parse name = Some u \<and>
           urls = map (\<lambda>h. \<lparr>Scheme = Scheme u, Host = h, Path = Path u, User = User u\<rparr>) hosts \<and>
           (if qtype = [] then hosts = [Host u]
            else resolve (if qtype = ''dns'' \<and> SplitHostPort (Host u) = None
                          then Host u @ '':9093'' else Host u) qtype = Inr hosts))
       (addrs s) urlss"
    by (rule list_all2_mono) (rule update_addr_success_parts)
  with res(2) u(1) show ?thesis
    by (intro exI[of _ urlss]) (simp add: get_def)
qed

lemma ex_parse_am:
  "ex_parse ''http://am.example/prefix'' =
     Some \<lparr>Scheme = ''http'', Host = ''am.example'', Path = ''/prefix'', User = None\<rparr>"
  "ex_parse ''http://am2:9093'' = Some \<lparr>Scheme = ''http'', Host = ''am2:9093'', Path = [], User = None\<rparr>"
  "ex_parse ''http://gone.example'' =
     Some \<lparr>Scheme = ''http'', Host = ''gone.example'', Path = [], User = None\<rparr>"
  by (simp_all add: ex_parse_def)

lemma ex_update_addr:
  "update_addr ex_parse ex_SplitHostPort ex_resolve ''dns+http://am.example/prefix'' =
     Inr [\<lparr>Scheme = ''http'', Host = ''10.0.0.1:9093'', Path = ''/prefix'', User = None\<rparr>,
          \<lparr>Scheme = ''http'', Host = ''10.0.0.2:9093'', Path = ''/prefix'', User = None\<rparr>]"
  "update_addr ex_parse ex_SplitHostPort ex_resolve ''http://am2:9093'' =
     Inr [\<lparr>Scheme = ''http'', Host = ''am2:9093'', Path = [], User = None\<rparr>]"
  "update_addr ex_parse ex_SplitHostPort ex_resolve ''dns+http://gone.example'' =
     Inl (ErrAlertmanagerResolve ''lookup failed'')"
  by (simp_all add: update_addr_def SplitN2_def ex_parse_am ex_SplitHostPort_def ex_resolve_def
      dns_A_def Itoa_defaultAlertmanagerPort)

text \<open>
  The theorem at the set configured with \<^verbatim>\<open>dns+http://am.example/prefix\<close> and
  \<^verbatim>\<open>http://am2:9093\<close>: two A records and the address passed through give three URLs.
\<close>

theorem update_success_urls_witness:
  "\<exists>urlss.
     get (ex_alertmanagers
            \<lparr>current := [\<lparr>Scheme = ''http'', Host = ''10.0.0.1:9093'', Path = ''/prefix'', User = None\<rparr>,
                         \<lparr>Scheme = ''http'', Host = ''10.0.0.2:9093'', Path = ''/prefix'', User = None\<rparr>,
                         \<lparr>Scheme = ''http'', Host = ''am2:9093'', Path = [], User = None\<rparr>]\<rparr>) =
       concat urlss \<and>
     list_all2
       (\<lambda>addr urls. \<exists>qtype name u hosts. spec_addr_parts addr qtype name \<and> ex_parse name = Some u \<and>
           urls = map (\<lambda>h. \<lparr>Scheme = Scheme u, Host = h, Path = Path u, User = User u\<rparr>) hosts \<and>
           (if qtype = [] then hosts = [Host u]
            else ex_resolve (if qtype = ''dns'' \<and> ex_SplitHostPort (Host u) = None
                             then Host u @ '':9093'' else Host u) qtype = Inr hosts))
       (addrs ex_alertmanagers) urlss"
proof -
  have "update ex_parse ex_SplitHostPort ex_resolve ex_alertmanagers =
     (None, ex_alertmanagers
            \<lparr>current := [\<lparr>Scheme = ''http'', Host = ''10.0.0.1:9093'', Path = ''/prefix'', User = None\<rparr>,
                         \<lparr>Scheme = ''http'', Host = ''10.0.0.2:9093'', Path = ''/prefix'', User = None\<rparr>,
                         \<lparr>Scheme = ''http'', Host = ''am2:9093'', Path = [], User = None\<rparr>]\<rparr>)"
    by (simp add: update_def ex_alertmanagers_def ex_update_addr)
  from update_success_urls[OF this] show ?thesis .
qed

text \<open>
  C9. If a configured address fails, that is, its name does not parse as a URL or it has a
  prefix and the resolver returns an error for its host, then \<open>update\<close> returns an error and
  the set, with the slice \<open>get\<close> reads, is as before. Whatever the addresses, a call that
  returns an error leaves the set as it was: the slice is replaced only by a call that
  resolved every address.
\<close>

theorem update_failure_keeps_current:
  assumes "addr \<in> set (addrs s)" and "spec_addr_parts addr qtype name"
    and "parse name = None \<or>
         (\<exists>u e. parse name = Some u \<and> qtype \<noteq> [] \<and>
            resolve (if qtype = ''dns'' \<and> SplitHostPort (Host u) = None
                     then Host u @ '':9093'' else Host u) qtype = Inl e)"
  shows "(\<exists>e. update parse SplitHostPort resolve s = (Some e, s)) \<and>
         get (snd (update parse SplitHostPort resolve s)) = get s \<and>
         (\<forall>parse' SplitHostPort' resolve' e s'.
            update parse' SplitHostPort' resolve' s = (Some e, s') \<longrightarrow> s' = s)"
proof -
  from assms(3) update_addr_parts[OF assms(2), of parse SplitHostPort resolve]
  obtain e where "update_addr parse SplitHostPort resolve addr = Inl e"
    by (cases "parse name") auto
  from update_loop_failure[OF assms(1) this] obtain e' where
    "update_loop parse SplitHostPort resolve (addrs s) [] = Inl e'"
    by blast
  then have "update parse SplitHostPort resolve s = (Some e', s)"
    by (simp add: update_def)
  moreover have "\<forall>parse' SplitHostPort' resolve' e s'.
            update parse' SplitHostPort' resolve' s = (Some e, s') \<longrightarrow> s' = s"
    by (auto simp: update_def split: sum.splits)
  ultimately show ?thesis by simp
qed

text \<open>
  The theorem at the set configured with \<^verbatim>\<open>http://am2:9093\<close> and
  \<^verbatim>\<open>dns+http://gone.example\<close>, whose lookup fails: the call returns the resolver's error and
  the old slice stays.
\<close>

theorem update_failure_keeps_current_witness:
  "update ex_parse ex_SplitHostPort ex_resolve ex_alertmanagers_bad =
     (Some (ErrAlertmanagerResolve ''lookup failed''), ex_alertmanagers_bad) \<and>
   (\<exists>e. update ex_parse ex_SplitHostPort ex_resolve ex_alertmanagers_bad =
      (Some e, ex_alertmanagers_bad)) \<and>
   get (snd (update ex_parse ex_SplitHostPort ex_resolve ex_alertmanagers_bad)) =
     [\<lparr>Scheme = ''http'', Host = ''old:9093'', Path = [], User = None\<rparr>]"
proof -
  have a: "''dns+http://gone.example'' \<in> set (addrs ex_alertmanagers_bad)"
    by (simp add: ex_alertmanagers_bad_def)
  have p: "spec_addr_parts ''dns+http://gone.example'' ''dns'' ''http://gone.example''"
    by (simp add: spec_addr_parts_def)
  have f: "ex_parse ''http://gone.example'' = None \<or>
         (\<exists>u e. ex_parse ''http://gone.example'' = Some u \<and> ''dns'' \<noteq> [] \<and>
            ex_resolve (if ''dns'' = ''dns'' \<and> ex_SplitHostPort (Host u) = None
                     then Host u @ '':9093'' else Host u) ''dns'' = Inl e)"
    by (simp add: ex_parse_am ex_SplitHostPort_def ex_resolve_def)
  have "update ex_parse ex_SplitHostPort ex_resolve ex_alertmanagers_bad =
     (Some (ErrAlertmanagerResolve ''lookup failed''), ex_alertmanagers_bad)"
    by (simp add: update_def ex_alertmanagers_bad_def ex_update_addr)
  moreover have "get ex_alertmanagers_bad =
     [\<lparr>Scheme = ''http'', Host = ''old:9093'', Path = [], User = None\<rparr>]"
    by (simp add: get_def ex_alertmanagers_bad_def)
  ultimately show ?thesis
    using update_failure_keeps_current[where parse = ex_parse and SplitHostPort = ex_SplitHostPort
        and resolve = ex_resolve and qtype = "''dns''" and name = "''http://gone.example''", OF a p f]
    by simp
qed

section \<open>Properties of the file SD update loop\<close>

lemma fileSD_loop_calls_view:
  "Update_calls (fileSD_loop es c) =
     Update_calls c + length [upd. Update_msg (Some upd) \<leftarrow> takeWhile (\<lambda>e. e \<noteq> Ctx_Done) es] \<and>
   view (fileSD_loop es c) =
     (if [upd. Update_msg (Some upd) \<leftarrow> takeWhile (\<lambda>e. e \<noteq> Ctx_Done) es] = [] then view c
      else last [upd. Update_msg (Some upd) \<leftarrow> takeWhile (\<lambda>e. e \<noteq> Ctx_Done) es])"
  by (induction es c rule: fileSD_loop.induct) (simp_all add: cache_Update_def)

text \<open>
  C8. A \<^verbatim>\<open>nil\<close> message leaves the cache as it is and makes no call of \<^verbatim>\<open>Update\<close>; a
  message that is not \<^verbatim>\<open>nil\<close> makes one call, which sets the view to the message. Over any
  sequence of events, the calls of \<^verbatim>\<open>Update\<close> are as many as the non-nil messages received
  before the context ends, and the view is the last of them (the old view if there is none).
\<close>

theorem fileSD_loop_ignores_nil:
  "fileSD_loop [Update_msg None] c = c \<and>
   fileSD_loop (Update_msg None # es) c = fileSD_loop es c \<and>
   fileSD_loop [Update_msg (Some upd)] c = c\<lparr>view := upd, Update_calls := Suc (Update_calls c)\<rparr> \<and>
   Update_calls (fileSD_loop es c) =
     Update_calls c + length [upd. Update_msg (Some upd) \<leftarrow> takeWhile (\<lambda>e. e \<noteq> Ctx_Done) es] \<and>
   view (fileSD_loop es c) =
     (if [upd. Update_msg (Some upd) \<leftarrow> takeWhile (\<lambda>e. e \<noteq> Ctx_Done) es] = [] then view c
      else last [upd. Update_msg (Some upd) \<leftarrow> takeWhile (\<lambda>e. e \<noteq> Ctx_Done) es])"
  using fileSD_loop_calls_view[of es c] by (simp add: cache_Update_def)

section \<open>Properties of the reload loop\<close>

lemma parseFiles_error:
  "(\<exists>e. parseFiles parseFile fns = Inl e) = (\<exists>fn\<in>set fns. \<exists>e. parseFile fn = Inl e)"
proof (induction fns)
  case Nil
  show ?case by simp
next
  case (Cons fn fns)
  show ?case
  proof (cases "parseFile fn")
    case (Inl e)
    then show ?thesis by auto
  next
    case (Inr gs)
    have "(\<exists>e. parseFiles parseFile (fn # fns) = Inl e) = (\<exists>e. parseFiles parseFile fns = Inl e)"
      using Inr by (cases "parseFiles parseFile fns") simp_all
    with Cons.IH Inr show ?thesis by simp
  qed
qed

text \<open>
  C3. In a reload where at least one of the globbed rule files has a parse error, the groups
  of both managers are as before, the gauge \<^verbatim>\<open>config_last_reload_successful\<close> is 0, and
  neither the loaded-rules gauges nor the success timestamp are touched. In a reload where
  every globbed file parses, the gauge is 1 and the success timestamp is the time of the
  reload in seconds.
\<close>

theorem reload_failure_keeps_state:
  "((\<exists>fn\<in>set (globFiles Glob ruleFiles []). \<exists>e. parseFile fn = Inl e) \<longrightarrow>
      ruleMgrs (reload Glob parseFile now ruleFiles st) = ruleMgrs st \<and>
      configSuccess (reload Glob parseFile now ruleFiles st) = 0 \<and>
      rulesLoaded (reload Glob parseFile now ruleFiles st) = rulesLoaded st \<and>
      configSuccessTime (reload Glob parseFile now ruleFiles st) = configSuccessTime st) \<and>
   ((\<forall>fn\<in>set (globFiles Glob ruleFiles []). \<exists>gs. parseFile fn = Inr gs) \<longrightarrow>
      configSuccess (reload Glob parseFile now ruleFiles st) = 1 \<and>
      configSuccessTime (reload Glob parseFile now ruleFiles st) = real_of_int now / 10 ^ 9)"
proof (cases "parseFiles parseFile (globFiles Glob ruleFiles [])")
  case (Inl e)
  then have "\<exists>fn\<in>set (globFiles Glob ruleFiles []). \<exists>e. parseFile fn = Inl e"
    using parseFiles_error[of parseFile "globFiles Glob ruleFiles []"] by blast
  then obtain fn e' where "fn \<in> set (globFiles Glob ruleFiles [])" "parseFile fn = Inl e'"
    by blast
  then have "\<not> (\<forall>fn\<in>set (globFiles Glob ruleFiles []). \<exists>gs. parseFile fn = Inr gs)"
    by (auto intro!: bexI[of _ fn])
  with Inl show ?thesis
    by (simp add: reload_def Managers_Update_def)
next
  case (Inr gs)
  then have "\<not> (\<exists>fn\<in>set (globFiles Glob ruleFiles []). \<exists>e. parseFile fn = Inl e)"
    using parseFiles_error[of parseFile "globFiles Glob ruleFiles []"] by simp
  with Inr show ?thesis
    by (simp add: reload_def Managers_Update_def)
qed

lemma ex_globFiles:
  "globFiles ex_Glob [''rules/*.yaml''] [] = [''rules/a.yaml'', ''rules/bad.yaml'']"
  "globFiles ex_Glob [''[bad'', ''ok/*.yaml''] [] = [''rules/a.yaml'']"
  by (simp_all add: ex_Glob_def)

lemma ex_parseFile_simps:
  "ex_parseFile ''rules/a.yaml'' = Inr [(ABORT, ex_group)]"
  "ex_parseFile ''rules/bad.yaml'' = Inl ''yaml: did not find expected key''"
  by (simp_all add: ex_parseFile_def)

text \<open>
  The theorem at two reloads of the same state: one that globs a broken file, and one with
  a bad pattern (skipped) and a pattern that matches the good file only.
\<close>

theorem reload_failure_keeps_state_witness:
  "(ruleMgrs (reload ex_Glob ex_parseFile 1500000000 [''rules/*.yaml''] ex_rule_state) =
      ruleMgrs ex_rule_state \<and>
    configSuccess (reload ex_Glob ex_parseFile 1500000000 [''rules/*.yaml''] ex_rule_state) = 0 \<and>
    rulesLoaded (reload ex_Glob ex_parseFile 1500000000 [''rules/*.yaml''] ex_rule_state) =
      rulesLoaded ex_rule_state \<and>
    configSuccessTime (reload ex_Glob ex_parseFile 1500000000 [''rules/*.yaml''] ex_rule_state) = 100) \<and>
   (configSuccess (reload ex_Glob ex_parseFile 1500000000 [''[bad'', ''ok/*.yaml''] ex_rule_state) = 1 \<and>
    configSuccessTime (reload ex_Glob ex_parseFile 1500000000 [''[bad'', ''ok/*.yaml''] ex_rule_state) = 3 / 2)"
proof
  have "\<exists>fn\<in>set (globFiles ex_Glob [''rules/*.yaml''] []). \<exists>e. ex_parseFile fn = Inl e"
    by (simp only: ex_globFiles) (simp add: ex_parseFile_simps)
  with reload_failure_keeps_state[of ex_Glob "[''rules/*.yaml'']" ex_parseFile 1500000000 ex_rule_state]
  show "ruleMgrs (reload ex_Glob ex_parseFile 1500000000 [''rules/*.yaml''] ex_rule_state) =
      ruleMgrs ex_rule_state \<and>
    configSuccess (reload ex_Glob ex_parseFile 1500000000 [''rules/*.yaml''] ex_rule_state) = 0 \<and>
    rulesLoaded (reload ex_Glob ex_parseFile 1500000000 [''rules/*.yaml''] ex_rule_state) =
      rulesLoaded ex_rule_state \<and>
    configSuccessTime (reload ex_Glob ex_parseFile 1500000000 [''rules/*.yaml''] ex_rule_state) = 100"
    by (simp add: ex_rule_state_def)
next
  have "\<forall>fn\<in>set (globFiles ex_Glob [''[bad'', ''ok/*.yaml''] []). \<exists>gs. ex_parseFile fn = Inr gs"
    by (simp only: ex_globFiles) (simp add: ex_parseFile_simps)
  with reload_failure_keeps_state[of ex_Glob "[''[bad'', ''ok/*.yaml'']" ex_parseFile 1500000000 ex_rule_state]
  show "configSuccess (reload ex_Glob ex_parseFile 1500000000 [''[bad'', ''ok/*.yaml''] ex_rule_state) = 1 \<and>
    configSuccessTime (reload ex_Glob ex_parseFile 1500000000 [''[bad'', ''ok/*.yaml''] ex_rule_state) = 3 / 2"
    by simp
qed

section \<open>Properties of the start-up checks\<close>

lemma lookupQueries_loop_None:
  "(lookupQueries_loop qs seen = None) = (distinct qs \<and> set qs \<inter> seen = {})"
  by (induction qs seen rule: lookupQueries_loop.induct) auto

lemma lookupQueries_loop_Some:
  "lookupQueries_loop qs seen = Some e \<Longrightarrow> \<exists>q. e = ErrDuplicatedQuery q \<and> q \<in> set qs"
  by (induction qs seen rule: lookupQueries_loop.induct) (auto split: if_splits)

lemma queryAddrs_loop_empty:
  "queryAddrs_loop qs = (if [] \<in> set qs then Some ErrEmptyStaticQuerier else None)"
  by (induction qs) auto

text \<open>
  C10. If an address occurs twice in \<^verbatim>\<open>--query\<close>, or neither a \<^verbatim>\<open>--query\<close> address nor a
  \<^verbatim>\<open>--query.sd-files\<close> pattern is given, or a \<^verbatim>\<open>--query\<close> address is the empty string, the
  set-up returns an error and does not reach \<^verbatim>\<open>tsdb.Open\<close>, whatever the rest of
  \<^verbatim>\<open>runRule\<close> would return. When the labels and the alert query URL parse, the error is the
  one of the first check that fails: the duplicated address, then the missing
  \<^verbatim>\<open>--query\<close> parameter, then the empty address.
\<close>

theorem registerRule_setup_rejects:
  assumes "\<not> distinct queries \<or> (queries = [] \<and> fileSDFiles = []) \<or> [] \<in> set queries"
  shows "\<exists>e. err (registerRule_setup IsValid Unquote parse labelStrs alertQueryURL queries
                    fileSDFiles rest) = Some e \<and>
          \<not> tsdbOpened (registerRule_setup IsValid Unquote parse labelStrs alertQueryURL queries
                    fileSDFiles rest) \<and>
          (if (\<exists>e'. parseFlagLabels IsValid Unquote labelStrs [] = Inl e') \<or> parse alertQueryURL = None
           then \<exists>e'. e = ErrParseLabels e' \<or> e = ErrParseAlertQueryURL e'
           else if \<not> distinct queries then \<exists>q. e = ErrDuplicatedQuery q \<and> q \<in> set queries
           else if queries = [] then e = ErrNoQueryParameter
           else e = ErrEmptyStaticQuerier)"
proof (cases "parseFlagLabels IsValid Unquote labelStrs []")
  case (Inl e')
  then show ?thesis by (simp add: registerRule_setup_def)
next
  case (Inr lset)
  show ?thesis
  proof (cases "parse alertQueryURL")
    case None
    with Inr show ?thesis by (simp add: registerRule_setup_def)
  next
    case (Some u)
    show ?thesis
    proof (cases "lookupQueries_loop queries {}")
      case (Some e)
      then have nd: "\<not> distinct queries"
        using lookupQueries_loop_None[of queries "{}"] by simp
      from lookupQueries_loop_Some[OF Some] obtain q where "e = ErrDuplicatedQuery q" "q \<in> set queries"
        by blast
      with Inr \<open>parse alertQueryURL = Some u\<close> Some nd show ?thesis
        by (simp add: registerRule_setup_def)
    next
      case None
      then have d: "distinct queries"
        using lookupQueries_loop_None[of queries "{}"] by simp
      show ?thesis
      proof (cases "queries = []")
        case True
        with assms have "fileSDFiles = []" by auto
        with True Inr \<open>parse alertQueryURL = Some u\<close> None show ?thesis
          by (simp add: registerRule_setup_def)
      next
        case False
        with assms d have "[] \<in> set queries" by simp
        with False d Inr \<open>parse alertQueryURL = Some u\<close> None show ?thesis
          by (simp add: registerRule_setup_def runRule_def queryAddrs_loop_empty)
      qed
    qed
  qed
qed

text \<open>
  The theorem at three command lines without labels: \<^verbatim>\<open>--query q:1 --query q:1\<close>; no
  \<^verbatim>\<open>--query\<close> and no \<^verbatim>\<open>--query.sd-files\<close>; and \<^verbatim>\<open>--query q:1 --query ""\<close> together with a
  file SD pattern.
\<close>

theorem registerRule_setup_rejects_witness:
  "registerRule_setup ex_IsValid ex_Unquote ex_parse [] ''http://q.example'' [''q:1'', ''q:1''] []
     None = \<lparr>err = Some (ErrDuplicatedQuery ''q:1''), tsdbOpened = False\<rparr> \<and>
   registerRule_setup ex_IsValid ex_Unquote ex_parse [] ''http://q.example'' [] []
     None = \<lparr>err = Some ErrNoQueryParameter, tsdbOpened = False\<rparr> \<and>
   registerRule_setup ex_IsValid ex_Unquote ex_parse [] ''http://q.example'' [''q:1'', []] [''sd/*.json'']
     None = \<lparr>err = Some ErrEmptyStaticQuerier, tsdbOpened = False\<rparr>"
proof -
  have p: "ex_parse ''http://q.example'' \<noteq> None" by (simp add: ex_parse_def)
  have l: "\<not> (\<exists>e'. parseFlagLabels ex_IsValid ex_Unquote [] [] = Inl e')" by simp
  have h1: "\<not> distinct [''q:1'', ''q:1''] \<or> ([''q:1'', ''q:1''] = [] \<and> ([] :: string list) = []) \<or>
            [] \<in> set [''q:1'', ''q:1'']"
    by simp
  have h2: "\<not> distinct ([] :: string list) \<or> (([] :: string list) = [] \<and> ([] :: string list) = []) \<or>
            [] \<in> set ([] :: string list)"
    by simp
  have h3: "\<not> distinct [''q:1'', []] \<or> ([''q:1'', []] = [] \<and> [''sd/*.json''] = []) \<or>
            [] \<in> set [''q:1'', []]"
    by simp
  have "registerRule_setup ex_IsValid ex_Unquote ex_parse [] ''http://q.example'' [''q:1'', ''q:1''] []
     None = \<lparr>err = Some (ErrDuplicatedQuery ''q:1''), tsdbOpened = False\<rparr>"
    using registerRule_setup_rejects[OF h1, of ex_IsValid ex_Unquote ex_parse "[]" "''http://q.example''" None] p l
    by (cases "registerRule_setup ex_IsValid ex_Unquote ex_parse [] ''http://q.example'' [''q:1'', ''q:1''] [] None")
       auto
  moreover have "registerRule_setup ex_IsValid ex_Unquote ex_parse [] ''http://q.example'' [] []
     None = \<lparr>err = Some ErrNoQueryParameter, tsdbOpened = False\<rparr>"
    using registerRule_setup_rejects[OF h2, of ex_IsValid ex_Unquote ex_parse "[]" "''http://q.example''" None] p l
    by (cases "registerRule_setup ex_IsValid ex_Unquote ex_parse [] ''http://q.example'' [] [] None")
       auto
  moreover have "registerRule_setup ex_IsValid ex_Unquote ex_parse [] ''http://q.example'' [''q:1'', []] [''sd/*.json'']
     None = \<lparr>err = Some ErrEmptyStaticQuerier, tsdbOpened = False\<rparr>"
    using registerRule_setup_rejects[OF h3, of ex_IsValid ex_Unquote ex_parse "[]" "''http://q.example''" None] p l
    by (cases "registerRule_setup ex_IsValid ex_Unquote ex_parse [] ''http://q.example'' [''q:1'', []] [''sd/*.json''] None")
       auto
  ultimately show ?thesis by simp
qed

end
